theory Spec2Isabelle
  imports Main "HOL-Library.Sublist"
begin

section \<open>Data model of \<open>extension.js\<close>\<close>

text \<open>
  A record of the \<open>entries\<close> list stored under \<open>history.recentlyOpenedPathsList\<close>.
  A field that the JSON object does not carry is \<open>None\<close>; a field that is present holds a
  string, as the \<open>HistoryEntry\<close> typedef of the source declares for the values copied
  from it. Records of other kinds (files, workspaces) are the ones with no \<open>folderUri\<close>.
\<close>

record raw_record =
  folderUri :: "string option"
  label :: "string option"
  remoteAuthority :: "string option"

text \<open>The \<open>HistoryEntry\<close> objects pushed onto \<open>this._historyEntries\<close>.\<close>

record history_entry =
  uri :: string
  title :: string
  remote :: string
  remoteType :: string

text \<open>The \<open>St.Icon\<close> built by \<open>createIcon\<close>, and the \<open>ResultMeta\<close> object literal.\<close>

record icon =
  icon_name :: string
  width :: int
  height :: int

record result_meta =
  ident :: string
  name :: string
  description :: string
  clipboardText :: string
  createIcon :: "int \<Rightarrow> icon"

text \<open>
  An element of an \<open>entries\<close> array that is not made of such records only: a record as
  above; an object that carries \<open>folderUri\<close> and whose \<open>label\<close> is \<open>null\<close>, on which
  \<open>entry.label.includes(term)\<close> throws a \<open>TypeError\<close> as soon as a term is tried; or a
  value that is not an object (\<open>null\<close>, a number, a string, a boolean), on which
  \<open>"folderUri" in entry\<close> throws a \<open>TypeError\<close>.
\<close>

datatype json_entry = WellTyped raw_record | NullLabel | NotObject

text \<open>
  What the calls on the SQLite file can do: \<open>conn.open()\<close> throws, the select throws,
  the iterator has no row, or there is a row. The text of a row either makes
  \<open>JSON.parse\<close> throw, or parses to a value with no \<open>entries\<close> array (reading
  \<open>result.entries.length\<close> throws), or parses to an object with its \<open>entries\<close>:
  \<open>Entries\<close> when every element is a record as above, \<open>MixedEntries\<close> for an array
  that may hold elements of the other kinds.
\<close>

datatype row_value = BadJson | NoEntries | Entries "raw_record list" | MixedEntries "json_entry list"

datatype store = CannotOpen | QueryFails | NoRow | Row row_value

text \<open>The calls made on the connection, in the order they are made.\<close>

datatype conn_event = ConnOpenFailed | ConnOpen | ConnSelect | ConnClose

datatype error = StoreFault | EntryFault | SearchCancelled | OperationCancelled

text \<open>
  The state of a \<open>SearchProvider\<close>: its \<open>_historyEntries\<close> array, and the trace of
  the calls it has made on database connections.
\<close>

record provider =
  historyEntries :: "history_entry list"
  conn_log :: "conn_event list"

text \<open>A promise is pending until its first \<open>resolve\<close> or \<open>reject\<close>; later ones are ignored.\<close>

datatype 'a promise = Pending | Resolved 'a | Rejected error

fun settle :: "'a promise \<Rightarrow> 'a promise \<Rightarrow> 'a promise" where
  "settle Pending q = q"
| "settle (Resolved v) q = Resolved v"
| "settle (Rejected e) q = Rejected e"

section \<open>JavaScript operators used by the source\<close>

text \<open>\<open>String.prototype.includes\<close>: the argument occurs as a contiguous part.\<close>

fun includes_str :: "string \<Rightarrow> string \<Rightarrow> bool" where
  "includes_str [] t = (t = [])"
| "includes_str (c # s) t = (if prefix t (c # s) then True else includes_str s t)"

text \<open>Truthiness of a string-valued property: \<open>undefined\<close> and \<open>""\<close> are falsy.\<close>

fun truthy :: "string option \<Rightarrow> bool" where
  "truthy None = False"
| "truthy (Some s) = (s \<noteq> [])"

text \<open>\<open>a || b\<close> for a string-valued property \<open>a\<close>.\<close>

fun js_or :: "string option \<Rightarrow> string \<Rightarrow> string" where
  "js_or None d = d"
| "js_or (Some s) d = (if s = [] then d else s)"

section \<open>\<open>_getHistoryEntries\<close>\<close>

text \<open>
  The \<open>for (const term of searchTerms)\<close> loop of an entry whose \<open>folderUri\<close> is \<open>u\<close>:
  the value of \<open>include\<close> when the loop ends.
\<close>

fun include_loop :: "raw_record \<Rightarrow> string \<Rightarrow> string list \<Rightarrow> bool" where
  "include_loop entry u [] = False"
| "include_loop entry u (term # terms) =
     (if (case label entry of None \<Rightarrow> False | Some l \<Rightarrow> includes_str l term) then True
      else if includes_str u term then True
      else include_loop entry u terms)"

text \<open>The object literal pushed for an included entry.\<close>

definition make_entry :: "raw_record \<Rightarrow> string \<Rightarrow> history_entry" where
  "make_entry entry u =
     \<lparr>uri = u,
      title = js_or (label entry) u,
      remote = js_or (remoteAuthority entry) ''local'',
      remoteType = (if truthy (remoteAuthority entry) then ''remote'' else ''local'')\<rparr>"

text \<open>
  The \<open>while (result.entries.length > 0)\<close> loop: the entries are shifted off the front
  one by one, and the third argument is \<open>this._historyEntries\<close>.
\<close>

fun match_entries :: "string list \<Rightarrow> raw_record list \<Rightarrow> history_entry list \<Rightarrow> history_entry list" where
  "match_entries searchTerms [] hist = hist"
| "match_entries searchTerms (entry # rest) hist =
     (case folderUri entry of
        None \<Rightarrow> match_entries searchTerms rest hist
      | Some u \<Rightarrow>
          if include_loop entry u searchTerms
          then match_entries searchTerms rest (hist @ [make_entry entry u])
          else match_entries searchTerms rest hist)"

text \<open>
  The same loop on an array that may hold elements on which a turn throws. The loop
  stops at the throw, with what it has pushed so far left in \<open>this._historyEntries\<close>:
  the result is the exception, if any, and the array.
\<close>

fun match_mixed :: "string list \<Rightarrow> json_entry list \<Rightarrow> history_entry list \<Rightarrow> error option \<times> history_entry list" where
  "match_mixed searchTerms [] hist = (None, hist)"
| "match_mixed searchTerms (WellTyped entry # rest) hist =
     (case folderUri entry of
        None \<Rightarrow> match_mixed searchTerms rest hist
      | Some u \<Rightarrow>
          if include_loop entry u searchTerms
          then match_mixed searchTerms rest (hist @ [make_entry entry u])
          else match_mixed searchTerms rest hist)"
| "match_mixed searchTerms (NullLabel # rest) hist =
     (if searchTerms = [] then match_mixed searchTerms rest hist else (Some EntryFault, hist))"
| "match_mixed searchTerms (NotObject # rest) hist = (Some EntryFault, hist)"

text \<open>
  The body of \<open>_getHistoryEntries\<close>. An exception thrown in the body is \<open>Inl\<close>: the
  function is \<open>async\<close>, so its promise is rejected with it. The value returned on
  success is the \<open>_historyEntries\<close> array itself.
\<close>

definition log_event :: "conn_event \<Rightarrow> provider \<Rightarrow> provider" where
  "log_event ev p = p\<lparr>conn_log := conn_log p @ [ev]\<rparr>"

definition getHistoryEntries :: "string list \<Rightarrow> store \<Rightarrow> provider \<Rightarrow> (error + history_entry list) \<times> provider" where
  "getHistoryEntries searchTerms db p =
     (if db = CannotOpen then (Inr [], log_event ConnOpenFailed p)
      else
        let opened = log_event ConnOpen p;
            emptied = opened\<lparr>historyEntries := []\<rparr>;
            selected = log_event ConnSelect emptied
        in (case db of
              Row value \<Rightarrow>
                (case value of
                   BadJson \<Rightarrow> (Inl StoreFault, selected)
                 | NoEntries \<Rightarrow> (Inl StoreFault, log_event ConnClose selected)
                 | Entries entries \<Rightarrow>
                     (let closed = log_event ConnClose selected;
                          hist = match_entries searchTerms entries (historyEntries closed)
                      in (Inr hist, closed\<lparr>historyEntries := hist\<rparr>))
                 | MixedEntries entries \<Rightarrow>
                     (let closed = log_event ConnClose selected;
                          (thrown, hist) = match_mixed searchTerms entries (historyEntries closed)
                      in (case thrown of None \<Rightarrow> Inr hist | Some e \<Rightarrow> Inl e,
                          closed\<lparr>historyEntries := hist\<rparr>)))
            | NoRow \<Rightarrow> (Inr [], selected)
            | _ \<Rightarrow> (Inl StoreFault, selected)))"

text \<open>
  The number of connections a trace has opened and not closed: \<open>open_from n\<close> runs
  through the trace with \<open>n\<close> connections open at its start.
\<close>

fun open_from :: "nat \<Rightarrow> conn_event list \<Rightarrow> nat" where
  "open_from n [] = n"
| "open_from n (ConnOpen # evs) = open_from (Suc n) evs"
| "open_from n (ConnClose # evs) = open_from (n - 1) evs"
| "open_from n (ConnSelect # evs) = open_from n evs"
| "open_from n (ConnOpenFailed # evs) = open_from n evs"

definition open_connections :: "conn_event list \<Rightarrow> nat" where
  "open_connections evs = open_from 0 evs"

section \<open>The search-provider methods\<close>

text \<open>
  \<open>getInitialResultSet\<close>. The token is given by \<open>is_cancelled\<close>, its state when the
  method is called, and \<open>cancel_pending\<close>, whether the host cancels it after the handler
  is connected and before the \<open>then\<close>/\<open>catch\<close> callback runs. \<open>cancellable.connect\<close>
  runs the handler at once on a token that is already cancelled. The result is the
  promise once the callback has run, and the provider.
\<close>

definition getInitialResultSet :: "string list \<Rightarrow> bool \<Rightarrow> bool \<Rightarrow> store \<Rightarrow> provider \<Rightarrow> string list promise \<times> provider" where
  "getInitialResultSet terms is_cancelled cancel_pending db p =
     (let connected = (if is_cancelled then Rejected SearchCancelled else Pending);
          (outcome, p') = getHistoryEntries terms db p;
          pending = (if cancel_pending then settle connected (Rejected SearchCancelled) else connected);
          cancelled_now = (is_cancelled \<or> cancel_pending);
          identifiers = (case outcome of Inr entries \<Rightarrow> map uri entries | Inl e \<Rightarrow> [])
      in (if \<not> cancelled_now then settle pending (Resolved identifiers) else pending, p'))"

text \<open>
  \<open>getSubsearchResultSet\<close> is not \<open>async\<close>: its \<open>throw\<close> is a synchronous exception,
  \<open>Inl\<close> here, and the provider is returned as it was.
\<close>

definition getSubsearchResultSet :: "string list \<Rightarrow> string list \<Rightarrow> bool \<Rightarrow> bool \<Rightarrow> store \<Rightarrow> provider \<Rightarrow> (error + string list promise) \<times> provider" where
  "getSubsearchResultSet results terms is_cancelled cancel_pending db p =
     (if is_cancelled then (Inl SearchCancelled, p)
      else (case getInitialResultSet terms is_cancelled cancel_pending db p of
              (promise, p') \<Rightarrow> (Inr promise, p')))"

text \<open>
  The object literal and the \<open>for (const identifier of results)\<close> loop of
  \<open>getResultMetas\<close>. The icon's size and the scale factor are integers here, and their
  product is exact; the source's product of numbers is the same below \<open>2^53\<close>.
\<close>

definition make_meta :: "int \<Rightarrow> string \<Rightarrow> history_entry \<Rightarrow> result_meta" where
  "make_meta scaleFactor identifier historyEntry =
     \<lparr>ident = identifier,
      name = title historyEntry,
      description = uri historyEntry,
      clipboardText = uri historyEntry,
      createIcon = (\<lambda>size.
        \<lparr>icon_name = ''dialog-information'',
         width = size * scaleFactor,
         height = size * scaleFactor\<rparr>)\<rparr>"

fun metas_loop :: "int \<Rightarrow> history_entry list \<Rightarrow> string list \<Rightarrow> result_meta list \<Rightarrow> result_meta list" where
  "metas_loop scaleFactor hist [] resultMetas = resultMetas"
| "metas_loop scaleFactor hist (identifier # results) resultMetas =
     (case find (\<lambda>entry. uri entry = identifier) hist of
        None \<Rightarrow> metas_loop scaleFactor hist results resultMetas
      | Some historyEntry \<Rightarrow>
          metas_loop scaleFactor hist results
            (resultMetas @ [make_meta scaleFactor identifier historyEntry]))"

text \<open>
  \<open>getResultMetas\<close>: the executor of its promise runs without interruption, so the
  token has one state, \<open>is_cancelled\<close>, throughout.
\<close>

definition getResultMetas :: "string list \<Rightarrow> bool \<Rightarrow> int \<Rightarrow> provider \<Rightarrow> result_meta list promise" where
  "getResultMetas results is_cancelled scaleFactor p =
     (let connected = (if is_cancelled then Rejected OperationCancelled else Pending);
          resultMetas = metas_loop scaleFactor (historyEntries p) results []
      in if \<not> is_cancelled then settle connected (Resolved resultMetas) else connected)"

text \<open>What one turn of the \<open>while\<close> loop pushes for the entry it has shifted off.\<close>

definition pushed :: "string list \<Rightarrow> raw_record \<Rightarrow> history_entry list" where
  "pushed searchTerms entry =
     (case folderUri entry of
        None \<Rightarrow> []
      | Some u \<Rightarrow> if include_loop entry u searchTerms then [make_entry entry u] else [])"


text \<open>The provider as its constructor leaves it, and records used as concrete inputs.\<close>

definition new_provider :: provider where
  "new_provider = \<lparr>historyEntries = [], conn_log = []\<rparr>"

definition proj_record :: raw_record where
  "proj_record = \<lparr>folderUri = Some ''/home/u/proj'', label = Some ''Proj'', remoteAuthority = None\<rparr>"

definition old_entry :: history_entry where
  "old_entry = \<lparr>uri = ''/home/u/old'', title = ''Old'', remote = ''local'', remoteType = ''local''\<rparr>"

definition dev_one :: raw_record where
  "dev_one = \<lparr>folderUri = Some ''/home/u/dev'', label = Some ''one'', remoteAuthority = None\<rparr>"

definition dev_two :: raw_record where
  "dev_two = \<lparr>folderUri = Some ''/home/u/dev'', label = Some ''two'', remoteAuthority = None\<rparr>"

section \<open>Basic facts about the loops\<close>

lemma includes_str_sublist: "includes_str s t \<longleftrightarrow> sublist t s"
  by (induction s) (auto simp: sublist_Cons_right)

lemma include_loop_iff:
  "include_loop entry u terms \<longleftrightarrow>
     (\<exists>t \<in> set terms. (\<exists>l. label entry = Some l \<and> sublist t l) \<or> sublist t u)"
  by (induction terms) (auto simp: includes_str_sublist split: option.splits)

lemma match_entries_pushed:
  "match_entries searchTerms records hist = hist @ concat (map (pushed searchTerms) records)"
  by (induction records arbitrary: hist) (auto simp: pushed_def split: option.splits)

lemma pushed_empty_terms: "pushed [] entry = []"
  by (simp add: pushed_def split: option.splits)

lemma match_entries_empty_terms: "match_entries [] records hist = hist"
  by (simp add: match_entries_pushed pushed_empty_terms)

lemma getHistoryEntries_Entries:
  "getHistoryEntries searchTerms (Row (Entries es)) p =
     (Inr (match_entries searchTerms es []),
      \<lparr>historyEntries = match_entries searchTerms es [],
       conn_log = conn_log p @ [ConnOpen, ConnSelect, ConnClose]\<rparr>)"
  by (simp add: getHistoryEntries_def log_event_def Let_def)


lemma match_mixed_WellTyped:
  "match_mixed searchTerms (map WellTyped records) hist = (None, match_entries searchTerms records hist)"
  by (induction records arbitrary: hist) (simp_all split: option.splits)



lemma getInitialResultSet_snd:
  "snd (getInitialResultSet terms c cp db p) = snd (getHistoryEntries terms db p)"
  by (simp add: getInitialResultSet_def Let_def split: prod.splits)


lemma uri_make_entry: "uri (make_entry entry u) = u"
  by (simp add: make_entry_def)

lemma count_uri_pushed:
  "count_list (map uri (pushed terms entry)) u =
     (if folderUri entry = Some u \<and> include_loop entry u terms then 1 else 0)"
  by (auto simp: pushed_def uri_make_entry split: option.splits)

lemma count_list_append: "count_list (xs @ ys) a = count_list xs a + count_list ys a"
  by (induction xs) auto

lemma count_uri_match_entries:
  "count_list (map uri (concat (map (pushed terms) records))) u =
     length (filter (\<lambda>entry. folderUri entry = Some u \<and> include_loop entry u terms) records)"
  by (induction records) (simp_all add: count_list_append count_uri_pushed)

lemma metas_loop_append:
  "metas_loop sf hist results acc = acc @ metas_loop sf hist results []"
proof (induction results arbitrary: acc)
  case Nil
  then show ?case by simp
next
  case (Cons i results)
  show ?case
  proof (cases "find (\<lambda>entry. uri entry = i) hist")
    case None
    then show ?thesis using Cons.IH [of acc] by simp
  next
    case (Some h)
    then show ?thesis
      using Cons.IH [of "acc @ [make_meta sf i h]"] Cons.IH [of "[make_meta sf i h]"] by simp
  qed
qed

lemma find_first:
  "uri h = i \<Longrightarrow> i \<notin> uri ` set before \<Longrightarrow>
   find (\<lambda>entry. uri entry = i) (before @ h # after) = Some h"
  by (induction before) auto

lemma js_or_cases:
  "js_or v d = (case v of None \<Rightarrow> d | Some s \<Rightarrow> if s = [] then d else s)"
  by (cases v) simp_all

lemma truthy_cases:
  "(if truthy v then a else b) = (case v of None \<Rightarrow> b | Some s \<Rightarrow> if s = [] then b else a)"
  by (cases v) simp_all

lemma pushed_fields:
  "list_all2 (\<lambda>r h.
        folderUri r = Some (uri h) \<and>
        title h = (case label r of None \<Rightarrow> uri h | Some l \<Rightarrow> if l = [] then uri h else l) \<and>
        remote h = (case remoteAuthority r of None \<Rightarrow> ''local''
                    | Some a \<Rightarrow> if a = [] then ''local'' else a) \<and>
        remoteType h = (case remoteAuthority r of None \<Rightarrow> ''local''
                    | Some a \<Rightarrow> if a = [] then ''local'' else ''remote''))
     (filter (\<lambda>r. case folderUri r of None \<Rightarrow> False | Some u \<Rightarrow> include_loop r u terms) records)
     (concat (map (pushed terms) records))"
proof (induction records)
  case Nil
  then show ?case by simp
next
  case (Cons r records)
  show ?case
  proof (cases "folderUri r")
    case None
    then show ?thesis using Cons.IH by (simp add: pushed_def)
  next
    case (Some u)
    then show ?thesis using Cons.IH
      by (simp add: pushed_def make_entry_def js_or_cases truthy_cases split: option.splits)
  qed
qed

lemma pushed_made:
  "list_all2 (\<lambda>r h. \<exists>u. folderUri r = Some u \<and> h = make_entry r u)
     (filter (\<lambda>r. case folderUri r of None \<Rightarrow> False | Some u \<Rightarrow> include_loop r u terms) records)
     (concat (map (pushed terms) records))"
proof (induction records)
  case Nil
  then show ?case by simp
next
  case (Cons r records)
  show ?case
  proof (cases "folderUri r")
    case None
    then show ?thesis using Cons.IH by (simp add: pushed_def)
  next
    case (Some u)
    then show ?thesis using Cons.IH by (simp add: pushed_def uri_make_entry)
  qed
qed

lemma matched_subseq:
  "subseq (filter (\<lambda>r. case folderUri r of None \<Rightarrow> False | Some u \<Rightarrow> include_loop r u terms) records)
     (filter (\<lambda>r. folderUri r \<noteq> None) records)"
proof -
  let ?M = "\<lambda>r. case folderUri r of None \<Rightarrow> False | Some u \<Rightarrow> include_loop r u terms"
  let ?H = "\<lambda>r. folderUri r \<noteq> None"
  have sub: "subseq (filter ?M (filter ?H records)) (filter ?H records)"
    by (rule subseq_filter_left)
  have "\<And>r. (?H r \<and> ?M r) = ?M r"
    by (simp split: option.splits)
  then have eq: "filter ?M (filter ?H records) = filter ?M records"
    by (simp only: filter_filter)
  from sub show ?thesis
    by (simp only: eq)
qed

lemma metas_loop_single:
  "metas_loop sf hist results [m] = m # metas_loop sf hist results []"
  using metas_loop_append [of sf hist results "[m]"] by simp

lemma ident_make_meta: "ident (make_meta sf i h) = i"
  by (simp add: make_meta_def)

lemma find_uri_None: "find (\<lambda>entry. uri entry = i) hist = None \<longleftrightarrow> i \<notin> uri ` set hist"
  by (auto simp: find_None_iff)

lemma metas_loop_idents:
  "map ident (metas_loop sf hist results []) = filter (\<lambda>i. i \<in> uri ` set hist) results"
proof (induction results)
  case Nil
  then show ?case by simp
next
  case (Cons i results)
  show ?case
  proof (cases "find (\<lambda>entry. uri entry = i) hist")
    case None
    then show ?thesis using Cons.IH by (simp add: metas_loop_single find_uri_None [symmetric])
  next
    case (Some h)
    then have "i \<in> uri ` set hist" using find_uri_None [of i hist] by simp
    with Some show ?thesis using Cons.IH by (simp add: metas_loop_single ident_make_meta)
  qed
qed

lemma metas_loop_built:
  "list_all (\<lambda>m. \<exists>h. find (\<lambda>entry. uri entry = ident m) hist = Some h \<and> m = make_meta sf (ident m) h)
     (metas_loop sf hist results [])"
proof (induction results)
  case Nil
  then show ?case by simp
next
  case (Cons i results)
  show ?case
  proof (cases "find (\<lambda>entry. uri entry = i) hist")
    case None
    then show ?thesis using Cons.IH by (simp add: metas_loop_single)
  next
    case (Some h)
    then show ?thesis using Cons.IH by (simp add: metas_loop_single ident_make_meta)
  qed
qed

lemma getResultMetas_not_cancelled:
  "getResultMetas results False sf p = Resolved (metas_loop sf (historyEntries p) results [])"
  by (simp add: getResultMetas_def)

lemma metas_loop_occurrences:
  "find (\<lambda>entry. uri entry = i) hist = Some h \<Longrightarrow>
   filter (\<lambda>m. ident m = i) (metas_loop sf hist results [])
     = replicate (count_list results i) (make_meta sf i h)"
proof (induction results)
  case Nil
  then show ?case by simp
next
  case (Cons j results)
  show ?case
  proof (cases "find (\<lambda>entry. uri entry = j) hist")
    case None
    with Cons have "j \<noteq> i" by auto
    with None Cons show ?thesis by (simp add: metas_loop_single)
  next
    case (Some g)
    show ?thesis
    proof (cases "j = i")
      case True
      with Some Cons show ?thesis by (simp add: metas_loop_single ident_make_meta)
    next
      case False
      with Some Cons show ?thesis by (simp add: metas_loop_single ident_make_meta)
    qed
  qed
qed

lemma dev_cache:
  "historyEntries (snd (getInitialResultSet [''dev''] False False
       (Row (Entries [dev_one, dev_two])) new_provider))
   = [make_entry dev_one ''/home/u/dev'', make_entry dev_two ''/home/u/dev'']"
  by (simp add: getInitialResultSet_snd getHistoryEntries_Entries dev_one_def dev_two_def)

section \<open>Matching with no search term\<close>

text \<open>
  C1, as the code has it: for every record list, when there is no search term the
  matching loop pushes nothing. \<open>include\<close> starts \<open>false\<close> and only a term can set it,
  so \<open>_historyEntries\<close> stays as it was, and \<open>_getHistoryEntries\<close>, which empties it
  first, returns the empty list whatever folder records the store holds.
\<close>

theorem empty_terms_match_nothing:
  "match_entries [] records hist = hist \<and>
   getHistoryEntries [] (Row (Entries records)) p =
     (Inr [], \<lparr>historyEntries = [], conn_log = conn_log p @ [ConnOpen, ConnSelect, ConnClose]\<rparr>)"
  by (simp add: match_entries_empty_terms getHistoryEntries_Entries)

text \<open>
  C1 as stated fails: with no term, the one folder record of the store is not returned.
\<close>

theorem empty_terms_counterexample:
  "match_entries [] [proj_record] [] \<noteq> [make_entry proj_record ''/home/u/proj'']"
  by (simp add: proj_record_def)

section \<open>Cancellation of an initial search\<close>

text \<open>
  C2, as the code has it: when the token of an initial search is cancelled, either
  already at the call or while the search is pending, the promise is rejected with
  \<open>Search Cancelled\<close>; it is not resolved with the empty list.
\<close>

theorem initial_search_cancelled_rejects:
  "is_cancelled \<or> cancel_pending \<Longrightarrow>
   fst (getInitialResultSet terms is_cancelled cancel_pending db p) = Rejected SearchCancelled"
  by (auto simp: getInitialResultSet_def Let_def split: prod.splits)

theorem initial_search_cancelled_rejects_witness:
  "(False \<or> True) \<and>
   fst (getInitialResultSet [''proj''] False True (Row (Entries [proj_record])) new_provider)
     = Rejected SearchCancelled"
  using initial_search_cancelled_rejects
    [of False True "[''proj'']" "Row (Entries [proj_record])" new_provider]
  by simp

text \<open>
  C2 as stated fails: a search cancelled while it is pending ends rejected, not
  resolved with the empty list.
\<close>

theorem initial_search_cancelled_counterexample:
  "fst (getInitialResultSet [''proj''] False True (Row (Entries [proj_record])) new_provider)
     \<noteq> Resolved []"
  by (simp add: getInitialResultSet_def getHistoryEntries_Entries)

section \<open>The connection on the paths of \<open>_getHistoryEntries\<close>\<close>

text \<open>
  C3 at the input where it fails: the connection opens and the select returns no row.
  \<open>_getHistoryEntries\<close> returns at \<open>if (!iter.move_next()) return []\<close>, before
  \<open>conn.close()\<close>: the trace of the call is an open and a select, and one connection
  is left open when the operation returns.
\<close>

theorem no_row_leaves_connection_open:
  "fst (getHistoryEntries [''proj''] NoRow new_provider) = Inr [] \<and>
   conn_log (snd (getHistoryEntries [''proj''] NoRow new_provider)) = [ConnOpen, ConnSelect] \<and>
   open_connections (conn_log (snd (getHistoryEntries [''proj''] NoRow new_provider))) = 1"
  by (simp add: getHistoryEntries_def log_event_def new_provider_def open_connections_def)

section \<open>Replacement of the cache\<close>




section \<open>Records that share a \<open>folderUri\<close>\<close>

text \<open>
  C5, as the code has it: after a search that reads the entries of the store, the cache
  holds one entry for each matching folder record, so a uri carried by several matching
  records occurs that many times in the cache; and metadata resolution for a uri uses
  the first entry of the cache that has it.
\<close>

theorem cache_keeps_every_matching_record:
  "count_list (map uri (historyEntries (snd
       (getInitialResultSet terms is_cancelled cancel_pending (Row (Entries records)) p)))) u
     = length (filter (\<lambda>entry. folderUri entry = Some u \<and> include_loop entry u terms) records)
   \<and> (\<forall>before h after. historyEntries q = before @ h # after \<and> uri h = u \<and> u \<notin> uri ` set before
        \<longrightarrow> getResultMetas [u] False sf q = Resolved [make_meta sf u h])"
  by (simp add: getInitialResultSet_snd getHistoryEntries_Entries match_entries_pushed
      count_uri_match_entries getResultMetas_def find_first)

theorem cache_keeps_every_matching_record_witness:
  "count_list (map uri (historyEntries (snd (getInitialResultSet [''dev''] False False
       (Row (Entries [dev_one, dev_two])) new_provider)))) ''/home/u/dev'' = 2
   \<and> map name (metas_loop 1 (historyEntries (snd (getInitialResultSet [''dev''] False False
       (Row (Entries [dev_one, dev_two])) new_provider))) [''/home/u/dev''] []) = [''one'']
   \<and> getResultMetas [''/home/u/dev''] False 1 (snd (getInitialResultSet [''dev''] False False
       (Row (Entries [dev_one, dev_two])) new_provider))
     = Resolved [make_meta 1 ''/home/u/dev'' (make_entry dev_one ''/home/u/dev'')]"
proof -
  let ?q = "snd (getInitialResultSet [''dev''] False False (Row (Entries [dev_one, dev_two])) new_provider)"
  note inst = cache_keeps_every_matching_record [where terms = "[''dev'']" and is_cancelled = False and cancel_pending = False
      and records = "[dev_one, dev_two]" and p = new_provider and u = "''/home/u/dev''"
      and q = ?q and sf = 1]
  have metas: "getResultMetas [''/home/u/dev''] False 1 ?q
      = Resolved [make_meta 1 ''/home/u/dev'' (make_entry dev_one ''/home/u/dev'')]"
    by (rule inst [THEN conjunct2, rule_format,
          of "[]" "make_entry dev_one ''/home/u/dev''" "[make_entry dev_two ''/home/u/dev'']"])
      (simp add: dev_cache uri_make_entry)
  have cnt: "count_list (map uri (historyEntries ?q)) ''/home/u/dev'' = 2"
    using inst [THEN conjunct1] by (simp add: dev_one_def dev_two_def)
  have nm: "map name (metas_loop 1 (historyEntries ?q) [''/home/u/dev''] []) = [''one'']"
    by (simp add: dev_cache uri_make_entry make_meta_def) (simp add: make_entry_def dev_one_def)
  from cnt nm metas show ?thesis by simp
qed

text \<open>
  C5 as stated fails: two matching records with the same \<open>folderUri\<close> give two cache
  entries with the same \<open>uri\<close>.
\<close>

theorem duplicate_uri_counterexample:
  "\<not> distinct (map uri (historyEntries (snd
       (getInitialResultSet [''dev''] False False (Row (Entries [dev_one, dev_two])) new_provider))))"
  by (simp add: getInitialResultSet_snd getHistoryEntries_Entries dev_one_def dev_two_def make_entry_def)

section \<open>Normalisation\<close>

text \<open>
  C6, as the code has it: the entries pushed are, in order, those of the matched folder
  records, and for each of them \<open>uri\<close> is the record's \<open>folderUri\<close>; \<open>title\<close> is the
  label when the record has a non-empty one and the \<open>folderUri\<close> otherwise; \<open>remote\<close>
  is the \<open>remoteAuthority\<close> when the record has a non-empty one and \<open>local\<close>
  otherwise; \<open>remoteType\<close> is \<open>remote\<close> when the record has a non-empty
  \<open>remoteAuthority\<close> and \<open>local\<close> otherwise.
\<close>

theorem normalisation_of_matched_records:
  "list_all2 (\<lambda>r h.
        folderUri r = Some (uri h) \<and>
        title h = (case label r of None \<Rightarrow> uri h | Some l \<Rightarrow> if l = [] then uri h else l) \<and>
        remote h = (case remoteAuthority r of None \<Rightarrow> ''local''
                    | Some a \<Rightarrow> if a = [] then ''local'' else a) \<and>
        remoteType h = (case remoteAuthority r of None \<Rightarrow> ''local''
                    | Some a \<Rightarrow> if a = [] then ''local'' else ''remote''))
     (filter (\<lambda>r. case folderUri r of None \<Rightarrow> False | Some u \<Rightarrow> include_loop r u terms) records)
     (match_entries terms records [])"
  by (simp only: match_entries_pushed append_Nil pushed_fields)

text \<open>
  C6 as stated fails: a matched record whose \<open>label\<close> and \<open>remoteAuthority\<close> are
  present and empty gets its \<open>folderUri\<close> as title, \<open>local\<close> as remote, and the
  remote type \<open>local\<close>.
\<close>

theorem empty_label_counterexample:
  "match_entries [''a''] [\<lparr>folderUri = Some ''/a'', label = Some '''', remoteAuthority = Some ''''\<rparr>] []
    = [\<lparr>uri = ''/a'', title = ''/a'', remote = ''local'', remoteType = ''local''\<rparr>]"
  by (simp add: make_entry_def)

section \<open>Subsearch\<close>

text \<open>
  C7: a subsearch whose token is already cancelled at the call fails at once with
  \<open>Search Cancelled\<close> and leaves the provider, and with it the trace of connection
  calls, as it was; otherwise its result is that of \<open>getInitialResultSet\<close> on the terms
  and the token, whatever the previous results are.
\<close>

theorem subsearch_cancelled_or_delegates:
  "(is_cancelled \<longrightarrow>
      getSubsearchResultSet results terms is_cancelled cancel_pending db p = (Inl SearchCancelled, p)) \<and>
   (\<not> is_cancelled \<longrightarrow>
      getSubsearchResultSet results terms is_cancelled cancel_pending db p =
        (Inr (fst (getInitialResultSet terms is_cancelled cancel_pending db p)),
         snd (getInitialResultSet terms is_cancelled cancel_pending db p)))"
  by (simp add: getSubsearchResultSet_def case_prod_beta)

theorem subsearch_cancelled_or_delegates_witness:
  "getSubsearchResultSet [''/home/u/old''] [''proj''] True False (Row (Entries [proj_record])) new_provider
     = (Inl SearchCancelled, new_provider) \<and>
   getSubsearchResultSet [''/home/u/old''] [''proj''] False False (Row (Entries [proj_record])) new_provider
     = (Inr (Resolved [''/home/u/proj'']),
        \<lparr>historyEntries = [\<lparr>uri = ''/home/u/proj'', title = ''Proj'', remote = ''local'', remoteType = ''local''\<rparr>],
         conn_log = [ConnOpen, ConnSelect, ConnClose]\<rparr>)"
proof -
  have init: "getInitialResultSet [''proj''] False False (Row (Entries [proj_record])) new_provider
     = (Resolved [''/home/u/proj''],
        \<lparr>historyEntries = [\<lparr>uri = ''/home/u/proj'', title = ''Proj'', remote = ''local'', remoteType = ''local''\<rparr>],
         conn_log = [ConnOpen, ConnSelect, ConnClose]\<rparr>)"
    by (simp add: getInitialResultSet_def getHistoryEntries_Entries proj_record_def make_entry_def
        new_provider_def)
  show ?thesis
    using subsearch_cancelled_or_delegates [of True "[''/home/u/old'']" "[''proj'']" False "Row (Entries [proj_record])" new_provider]
      subsearch_cancelled_or_delegates [of False "[''/home/u/old'']" "[''proj'']" False "Row (Entries [proj_record])" new_provider]
    by (simp add: init)
qed

section \<open>Order of the matches\<close>

text \<open>
  C8: for all record lists \<open>R\<close> and term lists \<open>T\<close>, the entries the matching loop
  produces are made, one for one and in order, from a subsequence of the records of
  \<open>R\<close> that carry a \<open>folderUri\<close>; records without one are passed over and the call
  returns normally.
\<close>

theorem matches_are_subsequence_of_folder_records:
  "\<exists>rs. subseq rs (filter (\<lambda>r. folderUri r \<noteq> None) R) \<and>
        list_all2 (\<lambda>r h. \<exists>u. folderUri r = Some u \<and> h = make_entry r u)
          rs (match_entries T R []) \<and>
        fst (getHistoryEntries T (Row (Entries R)) p) = Inr (match_entries T R [])"
proof (intro exI conjI)
  show "subseq (filter (\<lambda>r. case folderUri r of None \<Rightarrow> False | Some u \<Rightarrow> include_loop r u T) R)
     (filter (\<lambda>r. folderUri r \<noteq> None) R)"
    by (rule matched_subseq)
  show "list_all2 (\<lambda>r h. \<exists>u. folderUri r = Some u \<and> h = make_entry r u)
     (filter (\<lambda>r. case folderUri r of None \<Rightarrow> False | Some u \<Rightarrow> include_loop r u T) R)
     (match_entries T R [])"
    by (simp only: match_entries_pushed append_Nil pushed_made)
  show "fst (getHistoryEntries T (Row (Entries R)) p) = Inr (match_entries T R [])"
    by (simp add: getHistoryEntries_Entries)
qed

section \<open>Metadata resolution\<close>

text \<open>
  C9: with a token that is not cancelled, \<open>getResultMetas\<close> resolves with a list
  whose identifiers are the requested identifiers found in the cache, in the order of
  the request; it is no longer than the request, holds no identifier absent from the
  cache, and each of its elements is built from the cache entry found for its
  identifier.
\<close>

theorem metas_for_cache_hits:
  "\<exists>metas. getResultMetas results False sf p = Resolved metas \<and>
      map ident metas = filter (\<lambda>i. i \<in> uri ` set (historyEntries p)) results \<and>
      length metas \<le> length results \<and>
      set (map ident metas) \<subseteq> uri ` set (historyEntries p) \<and>
      list_all (\<lambda>m. \<exists>h. find (\<lambda>entry. uri entry = ident m) (historyEntries p) = Some h \<and>
                   m = make_meta sf (ident m) h) metas"
proof (intro exI conjI)
  let ?metas = "metas_loop sf (historyEntries p) results []"
  show "getResultMetas results False sf p = Resolved ?metas"
    by (rule getResultMetas_not_cancelled)
  show ids: "map ident ?metas = filter (\<lambda>i. i \<in> uri ` set (historyEntries p)) results"
    by (rule metas_loop_idents)
  have "length (map ident ?metas) \<le> length results"
    unfolding ids by (rule length_filter_le)
  then show "length ?metas \<le> length results" by simp
  show "set (map ident ?metas) \<subseteq> uri ` set (historyEntries p)"
    unfolding ids by auto
  show "list_all (\<lambda>m. \<exists>h. find (\<lambda>entry. uri entry = ident m) (historyEntries p) = Some h \<and>
                   m = make_meta sf (ident m) h) ?metas"
    by (rule metas_loop_built)
qed

text \<open>
  C10: an identifier that is in the cache and occurs \<open>k\<close> times in the request gets
  \<open>k\<close> elements in the resolved list, each built from the first cache entry with that
  uri.
\<close>

theorem duplicate_identifiers_kept:
  "find (\<lambda>entry. uri entry = i) (historyEntries p) = Some h \<Longrightarrow>
   \<exists>metas. getResultMetas results False sf p = Resolved metas \<and>
     filter (\<lambda>m. ident m = i) metas = replicate (count_list results i) (make_meta sf i h) \<and>
     count_list (map ident metas) i = count_list results i"
proof (intro exI conjI)
  assume f: "find (\<lambda>entry. uri entry = i) (historyEntries p) = Some h"
  let ?metas = "metas_loop sf (historyEntries p) results []"
  show "getResultMetas results False sf p = Resolved ?metas"
    by (rule getResultMetas_not_cancelled)
  show "filter (\<lambda>m. ident m = i) ?metas = replicate (count_list results i) (make_meta sf i h)"
    using f by (rule metas_loop_occurrences)
  have "i \<in> uri ` set (historyEntries p)"
    using f find_uri_None [of i "historyEntries p"] by simp
  then show "count_list (map ident ?metas) i = count_list results i"
    by (simp add: metas_loop_idents) (induction results, auto)
qed

theorem duplicate_identifiers_kept_witness:
  "find (\<lambda>entry. uri entry = ''/home/u/old'') (historyEntries \<lparr>historyEntries = [old_entry], conn_log = []\<rparr>)
     = Some old_entry \<and>
   (\<exists>metas. getResultMetas [''/home/u/old'', ''/home/u/gone'', ''/home/u/old''] False 1
        \<lparr>historyEntries = [old_entry], conn_log = []\<rparr> = Resolved metas \<and>
      filter (\<lambda>m. ident m = ''/home/u/old'') metas
        = [make_meta 1 ''/home/u/old'' old_entry, make_meta 1 ''/home/u/old'' old_entry] \<and>
      count_list (map ident metas) ''/home/u/old'' = 2)"
proof -
  have hit: "find (\<lambda>entry. uri entry = ''/home/u/old'')
      (historyEntries \<lparr>historyEntries = [old_entry], conn_log = []\<rparr>) = Some old_entry"
    by (simp add: old_entry_def)
  have twice: "count_list [''/home/u/old'', ''/home/u/gone'', ''/home/u/old''] ''/home/u/old'' = Suc (Suc 0)"
    by simp
  show ?thesis
    using hit duplicate_identifiers_kept [OF hit,
        of "[''/home/u/old'', ''/home/u/gone'', ''/home/u/old'']" 1]
    by (simp only: twice replicate.simps numeral_2_eq_2 simp_thms)
qed

end
